theory Spec2Isabelle
  imports Complex_Main
begin

section \<open>The schema\<close>

text \<open>
  The ledger of MyFinance lives in a PostgreSQL database. The tables that the
  double-entry rule and the tenancy rule read are modelled as lists of rows, in
  insertion order. A \<open>uuid\<close> is an opaque identifier; \<open>numeric\<close> is an exact
  decimal, modelled by the rationals (every finite decimal is one, and sums are
  exact). The special values NaN and Infinity of \<open>numeric\<close> are outside the type.
  Timestamps (\<open>created_at\<close>, \<open>updated_at\<close>) and the \<open>set_updated_at\<close> trigger play
  no part in any rule below and are left out, as are the columns of
  \<open>public.transactions\<close> other than its key, its company and its cached amount
  (so a header has no recurrence children).
\<close>

type_synonym uuid = nat

datatype app_role = admin | collaborator | accountant

record user_role =
  ur_user_id :: uuid
  ur_role :: app_role

record company_user =
  cu_company_id :: uuid
  cu_user_id :: uuid
  cu_role :: app_role

record transaction_row =
  tx_id :: uuid
  tx_company_id :: uuid
  tx_amount :: rat

text \<open>\<open>public.transaction_entries\<close>: the primary key \<open>id\<close> is \<open>entry_id\<close> here.\<close>

record entry =
  entry_id :: uuid
  transaction_id :: uuid
  company_id :: uuid
  account_id :: uuid
  amount :: rat

record database =
  user_roles :: "user_role list"
  company_users :: "company_user list"
  accounts :: "uuid list"
  transactions :: "transaction_row list"
  transaction_entries :: "entry list"

section \<open>Row-level security\<close>

text \<open>
  \<open>has_role\<close> is the SQL function of the first migration. \<open>auth.uid()\<close> is the
  acting principal, \<open>None\<close> for an unauthenticated request (a NULL compares equal
  to nothing).
\<close>

definition has_role :: "database \<Rightarrow> uuid \<Rightarrow> app_role \<Rightarrow> bool" where
  "has_role db uid role =
     list_ex (\<lambda>r. ur_user_id r = uid \<and> ur_role r = role) (user_roles db)"

type_synonym entry_policy = "database \<Rightarrow> uuid option \<Rightarrow> entry \<Rightarrow> bool"

text \<open>
  The policy "Company members manage transaction entries": its \<open>USING\<close> and its
  \<open>WITH CHECK\<close> expression are the same \<open>EXISTS\<close> over \<open>company_users\<close>,
  here \<open>is_company_member\<close> at the row's \<open>company_id\<close>.
\<close>

definition is_company_member :: "database \<Rightarrow> uuid \<Rightarrow> uuid \<Rightarrow> bool" where
  "is_company_member db uid cid =
     list_ex (\<lambda>cu. cu_company_id cu = cid \<and> cu_user_id cu = uid) (company_users db)"

definition company_members_manage_transaction_entries :: entry_policy where
  "company_members_manage_transaction_entries db auth_uid row =
     (case auth_uid of
        None \<Rightarrow> False
      | Some uid \<Rightarrow> is_company_member db uid (company_id row))"

text \<open>
  How PostgreSQL combines the policies of a table with row-level security
  enabled: a row passes when at least one permissive policy passes and every
  restrictive policy passes.
\<close>

definition rls_check ::
  "entry_policy list \<Rightarrow> entry_policy list \<Rightarrow> database \<Rightarrow> uuid option \<Rightarrow> entry \<Rightarrow> bool" where
  "rls_check permissive restrictive db auth_uid row =
     (list_ex (\<lambda>p. p db auth_uid row) permissive \<and>
      list_all (\<lambda>p. p db auth_uid row) restrictive)"

text \<open>
  The policy on \<open>transaction_entries\<close> is declared \<open>AS RESTRICTIVE FOR ALL\<close>, so it
  guards SELECT, INSERT, UPDATE and DELETE alike, for every role that is subject
  to row-level security. The permissive policies of the table are a parameter;
  the migrations at hand declare none.
\<close>

definition transaction_entries_rls ::
  "entry_policy list \<Rightarrow> database \<Rightarrow> uuid option \<Rightarrow> entry \<Rightarrow> bool" where
  "transaction_entries_rls permissive =
     rls_check permissive [company_members_manage_transaction_entries]"

definition declared_permissive_policies :: "entry_policy list" where
  "declared_permissive_policies = []"

text \<open>A permissive policy that lets every row pass, to compare with.\<close>

definition permit_all :: entry_policy where
  "permit_all db auth_uid row = True"

text \<open>A SELECT under row-level security returns the rows that pass \<open>USING\<close>.\<close>

definition select_entries ::
  "entry_policy list \<Rightarrow> database \<Rightarrow> uuid option \<Rightarrow> entry list" where
  "select_entries permissive db auth_uid =
     filter (transaction_entries_rls permissive db auth_uid) (transaction_entries db)"

section \<open>The validation trigger\<close>

datatype error =
    RaiseException string
  | UniqueViolation
  | ForeignKeyViolation

text \<open>The two message texts of the trigger function, as UTF-8 bytes.\<close>

definition msg_too_few_lines :: string where
  "msg_too_few_lines =
     ''Cada lan'' @ [CHR 0xC3, CHR 0xA7] @ ''amento deve ter pelo menos duas linhas (d''
     @ [CHR 0xC3, CHR 0xA9] @ ''bito e cr'' @ [CHR 0xC3, CHR 0xA9] @ ''dito)''"

definition msg_unbalanced :: string where
  "msg_unbalanced =
     ''Soma dos valores das linhas do lan'' @ [CHR 0xC3, CHR 0xA7]
     @ ''amento deve ser igual a zero''"

text \<open>
  One firing of a row-level trigger: \<open>TG_OP\<close> with the row images it comes with
  (\<open>NEW\<close> for an insert, \<open>OLD\<close> and \<open>NEW\<close> for an update, \<open>OLD\<close> for a delete).
\<close>

datatype trigger_call =
    TgInsert entry
  | TgUpdate entry entry
  | TgDelete entry

fun v_tx_id :: "trigger_call \<Rightarrow> uuid" where
  "v_tx_id (TgInsert new) = transaction_id new"
| "v_tx_id (TgUpdate old new) = transaction_id new"
| "v_tx_id (TgDelete old) = transaction_id old"

definition lines_of :: "entry list \<Rightarrow> uuid \<Rightarrow> entry list" where
  "lines_of tbl h = filter (\<lambda>r. transaction_id r = h) tbl"

text \<open>
  \<open>COALESCE(SUM(amount), 0)\<close> and \<open>COUNT(*)\<close> over the lines of one header. The
  count is a natural number here; the 32-bit range of the variable \<open>v_count\<close>, which
  only a header with more than 2147483647 lines would leave, is not modelled.
\<close>

definition v_sum :: "entry list \<Rightarrow> uuid \<Rightarrow> rat" where
  "v_sum tbl h = sum_list (map amount (lines_of tbl h))"

definition v_count :: "entry list \<Rightarrow> uuid \<Rightarrow> nat" where
  "v_count tbl h = length (lines_of tbl h)"

text \<open>
  \<open>validate_transaction_entries\<close>, run against the table as it stands when the
  trigger fires. \<open>RETURN NULL\<close> is \<open>Inr ()\<close>.
\<close>

definition validate_transaction_entries :: "entry list \<Rightarrow> trigger_call \<Rightarrow> error + unit" where
  "validate_transaction_entries tbl call =
     (let h = v_tx_id call in
      if v_count tbl h < 2 then Inl (RaiseException msg_too_few_lines)
      else if v_sum tbl h \<noteq> 0 then Inl (RaiseException msg_unbalanced)
      else Inr ())"

section \<open>Statements and the ambient transaction\<close>

text \<open>
  The state of an open transaction: the tables as the transaction sees them, and
  the queue of deferred trigger firings. The constraint trigger is
  \<open>AFTER INSERT OR UPDATE OR DELETE ... DEFERRABLE INITIALLY DEFERRED FOR EACH ROW\<close>:
  every row written queues one firing, and the queue runs at commit.
\<close>

record tx_state =
  cur :: database
  pending :: "trigger_call list"

datatype stmt =
    InsertTransaction transaction_row
  | UpdateTransactions "transaction_row \<Rightarrow> bool" "transaction_row \<Rightarrow> transaction_row"
  | DeleteTransactions "transaction_row \<Rightarrow> bool"
  | InsertEntries "entry list"
  | UpdateEntries "entry \<Rightarrow> bool" "entry \<Rightarrow> entry"
  | DeleteEntries "entry \<Rightarrow> bool"

text \<open>The foreign keys of an entry: its header and its account exist.\<close>

definition entry_fk_ok :: "database \<Rightarrow> entry \<Rightarrow> bool" where
  "entry_fk_ok db r =
     (transaction_id r \<in> set (map tx_id (transactions db)) \<and>
      account_id r \<in> set (accounts db))"

fun insert_rows :: "entry list \<Rightarrow> tx_state \<Rightarrow> error + tx_state" where
  "insert_rows [] s = Inr s"
| "insert_rows (r # rs) s =
     (if entry_id r \<in> set (map entry_id (transaction_entries (cur s))) then Inl UniqueViolation
      else if \<not> entry_fk_ok (cur s) r then Inl ForeignKeyViolation
      else insert_rows rs
             \<lparr>cur = (cur s)\<lparr>transaction_entries := transaction_entries (cur s) @ [r]\<rparr>,
              pending = pending s @ [TgInsert r]\<rparr>)"

text \<open>
  One statement, as the storage layer runs it once row-level security has let it
  through. A primary-key or foreign-key violation fails at once. Deleting
  a header deletes its entries too (\<open>ON DELETE CASCADE\<close>), and each entry deleted
  that way fires the row trigger like any other delete.

  Limits of the model, none of which a property below depends on: an UPDATE
  tests the primary key once, on the table after the statement, where
  PostgreSQL tests it row by row (so a statement that swaps two keys passes
  here and fails there); when a statement violates both a key and a foreign
  key, the kind of error reported may differ; the foreign key of
  \<open>transactions.company_id\<close> and the rounding of the header's \<open>amount\<close> to
  \<open>numeric(14,2)\<close> are left out.
\<close>

fun exec_stmt :: "stmt \<Rightarrow> tx_state \<Rightarrow> error + tx_state" where
  "exec_stmt (InsertTransaction t) s =
     (if tx_id t \<in> set (map tx_id (transactions (cur s))) then Inl UniqueViolation
      else Inr (s\<lparr>cur := (cur s)\<lparr>transactions := transactions (cur s) @ [t]\<rparr>\<rparr>))"
| "exec_stmt (UpdateTransactions p f) s =
     (let db' = (cur s)\<lparr>transactions := map (\<lambda>t. if p t then f t else t) (transactions (cur s))\<rparr>
      in if \<not> distinct (map tx_id (transactions db')) then Inl UniqueViolation
         else if \<not> list_all (entry_fk_ok db') (transaction_entries db') then Inl ForeignKeyViolation
         else Inr (s\<lparr>cur := db'\<rparr>))"
| "exec_stmt (DeleteTransactions p) s =
     (let gone = map tx_id (filter p (transactions (cur s)));
          cascaded = filter (\<lambda>r. transaction_id r \<in> set gone) (transaction_entries (cur s))
      in Inr \<lparr>cur = (cur s)\<lparr>transactions := filter (\<lambda>t. \<not> p t) (transactions (cur s)),
                            transaction_entries :=
                              filter (\<lambda>r. transaction_id r \<notin> set gone) (transaction_entries (cur s))\<rparr>,
              pending = pending s @ map TgDelete cascaded\<rparr>)"
| "exec_stmt (InsertEntries rows) s = insert_rows rows s"
| "exec_stmt (UpdateEntries p f) s =
     (let tbl = transaction_entries (cur s);
          db' = (cur s)\<lparr>transaction_entries := map (\<lambda>r. if p r then f r else r) tbl\<rparr>
      in if \<not> distinct (map entry_id (transaction_entries db')) then Inl UniqueViolation
         else if \<not> list_all (entry_fk_ok db') (map f (filter p tbl)) then Inl ForeignKeyViolation
         else Inr \<lparr>cur = db', pending = pending s @ map (\<lambda>r. TgUpdate r (f r)) (filter p tbl)\<rparr>)"
| "exec_stmt (DeleteEntries p) s =
     Inr \<lparr>cur = (cur s)\<lparr>transaction_entries := filter (\<lambda>r. \<not> p r) (transaction_entries (cur s))\<rparr>,
          pending = pending s @ map TgDelete (filter p (transaction_entries (cur s)))\<rparr>"

fun exec_stmts :: "stmt list \<Rightarrow> tx_state \<Rightarrow> error + tx_state" where
  "exec_stmts [] s = Inr s"
| "exec_stmts (c # cs) s =
     (case exec_stmt c s of Inl e \<Rightarrow> Inl e | Inr s' \<Rightarrow> exec_stmts cs s')"

text \<open>
  At commit the queued firings run in order, each against the final table. The
  first exception aborts the commit. The counter is the number of times the
  trigger function ran.
\<close>

fun fire_deferred :: "entry list \<Rightarrow> trigger_call list \<Rightarrow> nat \<Rightarrow> (error + unit) \<times> nat" where
  "fire_deferred tbl [] n = (Inr (), n)"
| "fire_deferred tbl (call # calls) n =
     (case validate_transaction_entries tbl call of
        Inl e \<Rightarrow> (Inl e, Suc n)
      | Inr u \<Rightarrow> fire_deferred tbl calls (Suc n))"

record tx_result =
  outcome :: "error + unit"
  committed :: database
  checks :: nat

definition begin_tx :: "database \<Rightarrow> tx_state" where
  "begin_tx db = \<lparr>cur = db, pending = []\<rparr>"

text \<open>
  A whole ambient transaction on the committed state \<open>db\<close>: the statements, then
  the commit. On any error the committed state stays \<open>db\<close> (rollback).
\<close>

definition run_tx :: "database \<Rightarrow> stmt list \<Rightarrow> tx_result" where
  "run_tx db cs =
     (case exec_stmts cs (begin_tx db) of
        Inl e \<Rightarrow> \<lparr>outcome = Inl e, committed = db, checks = 0\<rparr>
      | Inr s \<Rightarrow>
          (case fire_deferred (transaction_entries (cur s)) (pending s) 0 of
             (Inl e, n) \<Rightarrow> \<lparr>outcome = Inl e, committed = db, checks = n\<rparr>
           | (Inr u, n) \<Rightarrow> \<lparr>outcome = Inr (), committed = cur s, checks = n\<rparr>))"

fun run_txs :: "database \<Rightarrow> stmt list list \<Rightarrow> database" where
  "run_txs db [] = db"
| "run_txs db (cs # rest) = run_txs (committed (run_tx db cs)) rest"

text \<open>The balance invariant of a committed state.\<close>

definition header_balanced :: "entry list \<Rightarrow> uuid \<Rightarrow> bool" where
  "header_balanced tbl h = (v_count tbl h = 0 \<or> (v_sum tbl h = 0 \<and> 2 \<le> v_count tbl h))"

definition balance_invariant :: "database \<Rightarrow> bool" where
  "balance_invariant db =
     list_all (\<lambda>t. header_balanced (transaction_entries db) (tx_id t)) (transactions db)"

text \<open>
  The access rule in the specification's words (\<open>canAccess\<close>): a membership of the
  principal in the tenant, or the global admin role.
\<close>

definition spec_canAccess :: "database \<Rightarrow> uuid \<Rightarrow> uuid \<Rightarrow> bool" where
  "spec_canAccess db uid tenant = (is_company_member db uid tenant \<or> has_role db uid admin)"

text \<open>
  The specification's set of dirty headers of an open transaction: the header of
  every queued firing, duplicates collapsed.
\<close>

definition dirty_headers :: "trigger_call list \<Rightarrow> uuid list" where
  "dirty_headers calls = remdups (map v_tx_id calls)"

text \<open>The firings that a transaction's statements have queued when it reaches commit.\<close>

definition queued :: "database \<Rightarrow> stmt list \<Rightarrow> trigger_call list" where
  "queued db cs = (case exec_stmts cs (begin_tx db) of Inl e \<Rightarrow> [] | Inr s \<Rightarrow> pending s)"

text \<open>
  Tenant consistency: every entry carries the company of the header it belongs
  to.
\<close>

definition tenant_consistent :: "database \<Rightarrow> bool" where
  "tenant_consistent db =
     list_all
       (\<lambda>r. list_all (\<lambda>t. tx_company_id t = company_id r)
              (filter (\<lambda>t. tx_id t = transaction_id r) (transactions db)))
       (transaction_entries db)"

definition fk_consistent :: "database \<Rightarrow> bool" where
  "fk_consistent db = list_all (entry_fk_ok db) (transaction_entries db)"

section \<open>The client's write path\<close>

text \<open>
  \<open>onSubmit\<close> of the transactions page (\<open>App.tsx\<close>), in create mode. The form's
  lines carry a side and an unsigned amount; the signed lines must add up to
  zero or nothing is sent. It then inserts the header for the current company
  and, when that succeeded, the lines, each with the new header's id and the
  current company's id. Every client call is a request of its own, so the header
  and the lines are two ambient transactions. The identifiers that the database
  generates (\<open>gen_random_uuid()\<close>) are parameters. The amounts, JavaScript numbers
  in the page, are exact rationals here, so the test that the lines add up to
  zero may take the other branch than the page's floating-point sum does; what
  is proved below about \<open>onSubmit_create\<close> holds on both branches.
\<close>

datatype side = debit | credit

record form_line =
  fl_account_id :: uuid
  fl_side :: side
  fl_amount :: rat

record signed_line =
  sl_account_id :: uuid
  sl_amount :: rat

definition signedLines :: "form_line list \<Rightarrow> signed_line list" where
  "signedLines lines =
     map (\<lambda>line. \<lparr>sl_account_id = fl_account_id line,
                   sl_amount = (if fl_side line = debit then fl_amount line else - fl_amount line)\<rparr>)
       lines"

definition totalDebits :: "signed_line list \<Rightarrow> rat" where
  "totalDebits ls = sum_list (map sl_amount (filter (\<lambda>l. sl_amount l > 0) ls))"

definition onSubmit_entry_rows :: "uuid \<Rightarrow> uuid \<Rightarrow> uuid list \<Rightarrow> signed_line list \<Rightarrow> entry list" where
  "onSubmit_entry_rows transactionId currentCompany ids ls =
     map (\<lambda>(i, line). \<lparr>entry_id = i, transaction_id = transactionId, company_id = currentCompany,
                        account_id = sl_account_id line, amount = sl_amount line\<rparr>)
       (zip ids ls)"

definition onSubmit_create :: "database \<Rightarrow> uuid \<Rightarrow> uuid \<Rightarrow> uuid list \<Rightarrow> form_line list \<Rightarrow> database" where
  "onSubmit_create db new_id currentCompany ids lines =
     (let ls = signedLines lines in
      if sum_list (map sl_amount ls) \<noteq> 0 then db
      else
        let r1 = run_tx db [InsertTransaction
                   \<lparr>tx_id = new_id, tx_company_id = currentCompany, tx_amount = totalDebits ls\<rparr>]
        in case outcome r1 of
             Inl e \<Rightarrow> committed r1
           | Inr u \<Rightarrow>
               committed (run_tx (committed r1)
                 [InsertEntries (onSubmit_entry_rows new_id currentCompany ids ls)]))"

section \<open>Concrete states and transactions\<close>

definition line :: "uuid \<Rightarrow> uuid \<Rightarrow> uuid \<Rightarrow> uuid \<Rightarrow> rat \<Rightarrow> entry" where
  "line i h c a m =
     \<lparr>entry_id = i, transaction_id = h, company_id = c, account_id = a, amount = m\<rparr>"

text \<open>
  Two companies, a collaborator of company 1 (user 5), an accountant of company 2
  (user 6), a global admin who is a member of no company (user 7), and two
  accounts. \<open>ex_start\<close> has no header yet; \<open>ex_db\<close> has two balanced headers of
  company 1.
\<close>

definition ex_start :: database where
  "ex_start =
     \<lparr>user_roles = [\<lparr>ur_user_id = 7, ur_role = admin\<rparr>],
      company_users = [\<lparr>cu_company_id = 1, cu_user_id = 5, cu_role = collaborator\<rparr>,
                       \<lparr>cu_company_id = 2, cu_user_id = 6, cu_role = accountant\<rparr>],
      accounts = [1, 2],
      transactions = [],
      transaction_entries = []\<rparr>"

definition ex_headers :: "transaction_row list" where
  "ex_headers = [\<lparr>tx_id = 1, tx_company_id = 1, tx_amount = 100\<rparr>,
                 \<lparr>tx_id = 2, tx_company_id = 1, tx_amount = 50\<rparr>]"

definition ex_lines :: "entry list" where
  "ex_lines = [line 1 1 1 1 100, line 2 1 1 2 (- 100), line 3 2 1 1 50, line 4 2 1 2 (- 50)]"

definition ex_db :: database where
  "ex_db = ex_start\<lparr>transactions := ex_headers, transaction_entries := ex_lines\<rparr>"

text \<open>The transaction that creates both headers with their lines.\<close>

definition tx_create :: "stmt list" where
  "tx_create = [InsertTransaction (ex_headers ! 0), InsertTransaction (ex_headers ! 1),
                InsertEntries ex_lines]"

text \<open>
  \<open>UPDATE transaction_entries SET transaction_id = 2, amount = 0 WHERE id = 1\<close>:
  a line of header 1 moves to header 2.
\<close>

definition tx_move_line :: "stmt list" where
  "tx_move_line = [UpdateEntries (\<lambda>r. entry_id r = 1) (\<lambda>r. r\<lparr>transaction_id := 2, amount := 0\<rparr>)]"

text \<open>The edit pattern: delete all lines of header 1, insert a new full set.\<close>

definition tx_replace :: "stmt list" where
  "tx_replace = [DeleteEntries (\<lambda>r. transaction_id r = 1),
                 InsertEntries [line 5 1 1 1 300, line 6 1 1 2 (- 150), line 7 1 1 2 (- 150)]]"

text \<open>\<open>DELETE FROM transactions WHERE id = 1\<close>.\<close>

definition tx_delete_header :: "stmt list" where
  "tx_delete_header = [DeleteTransactions (\<lambda>t. tx_id t = 1)]"

text \<open>A new header 3 with a single line, and one with two lines that do not balance.\<close>

definition tx_one_line :: "stmt list" where
  "tx_one_line = [InsertTransaction \<lparr>tx_id = 3, tx_company_id = 1, tx_amount = 50\<rparr>,
                  InsertEntries [line 8 3 1 1 50]]"

definition tx_unbalanced :: "stmt list" where
  "tx_unbalanced = [InsertTransaction \<lparr>tx_id = 3, tx_company_id = 1, tx_amount = 100\<rparr>,
                    InsertEntries [line 8 3 1 1 100, line 9 3 1 2 (- 90)]]"

text \<open>The same two failures on another header, 4, with other amounts.\<close>

definition tx_one_line_other :: "stmt list" where
  "tx_one_line_other = [InsertTransaction \<lparr>tx_id = 4, tx_company_id = 1, tx_amount = 70\<rparr>,
                        InsertEntries [line 8 4 1 1 70]]"

definition tx_unbalanced_other :: "stmt list" where
  "tx_unbalanced_other = [InsertTransaction \<lparr>tx_id = 4, tx_company_id = 1, tx_amount = 100\<rparr>,
                          InsertEntries [line 8 4 1 1 100, line 9 4 1 2 (- 80)]]"

text \<open>
  Two new headers in one transaction: header 3 with lines 100 and -90, then
  header 4 with a single line of 70.
\<close>

definition tx_two_bad_headers :: "stmt list" where
  "tx_two_bad_headers = [InsertTransaction \<lparr>tx_id = 3, tx_company_id = 1, tx_amount = 100\<rparr>,
                         InsertTransaction \<lparr>tx_id = 4, tx_company_id = 1, tx_amount = 70\<rparr>,
                         InsertEntries [line 8 3 1 1 100, line 9 3 1 2 (- 90), line 10 4 1 1 70]]"

text \<open>
  What \<open>handleDelete\<close> of the transactions page sends first:
  \<open>DELETE FROM transaction_entries WHERE transaction_id = 1 AND company_id = 1\<close>.
\<close>

definition tx_delete_lines :: "stmt list" where
  "tx_delete_lines = [DeleteEntries (\<lambda>r. transaction_id r = 1 \<and> company_id r = 1)]"

text \<open>Lines of amount zero, and lines with three decimal places.\<close>

definition tx_zero_lines :: "stmt list" where
  "tx_zero_lines = [InsertTransaction \<lparr>tx_id = 3, tx_company_id = 1, tx_amount = 0\<rparr>,
                    InsertEntries [line 8 3 1 1 0, line 9 3 1 2 0]]"

definition tx_fine_scale :: "stmt list" where
  "tx_fine_scale = [InsertTransaction \<lparr>tx_id = 3, tx_company_id = 1, tx_amount = 0\<rparr>,
                    InsertEntries [line 8 3 1 1 (1 / 1000), line 9 3 1 2 (- (1 / 1000))]]"

text \<open>The form of the transactions page: a debit of 10 and a credit of 10.\<close>

definition ex_form_lines :: "form_line list" where
  "ex_form_lines = [\<lparr>fl_account_id = 1, fl_side = debit, fl_amount = 10\<rparr>,
                    \<lparr>fl_account_id = 2, fl_side = credit, fl_amount = 10\<rparr>]"

text \<open>
  Two more lines for header 1, which belongs to company 1, that name company 2;
  and an UPDATE that rewrites the company of the lines of header 1.
\<close>

definition tx_foreign_company :: "stmt list" where
  "tx_foreign_company = [InsertEntries [line 8 1 2 1 10, line 9 1 2 2 (- 10)]]"

definition tx_change_company :: "stmt list" where
  "tx_change_company = [UpdateEntries (\<lambda>r. transaction_id r = 1) (\<lambda>r. r\<lparr>company_id := 2\<rparr>)]"


section \<open>Facts about the trigger and the commit\<close>

lemma validate_ok_iff:
  "(validate_transaction_entries tbl call = Inr ()) =
     (2 \<le> v_count tbl (v_tx_id call) \<and> v_sum tbl (v_tx_id call) = 0)"
  by (auto simp: validate_transaction_entries_def Let_def)

lemma validate_too_few:
  "v_count tbl (v_tx_id call) < 2 \<Longrightarrow>
     validate_transaction_entries tbl call = Inl (RaiseException msg_too_few_lines)"
  by (simp add: validate_transaction_entries_def)

lemma validate_unbalanced:
  "2 \<le> v_count tbl (v_tx_id call) \<Longrightarrow> v_sum tbl (v_tx_id call) \<noteq> 0 \<Longrightarrow>
     validate_transaction_entries tbl call = Inl (RaiseException msg_unbalanced)"
  by (simp add: validate_transaction_entries_def)

lemma validate_same_header:
  "v_tx_id c = v_tx_id c' \<Longrightarrow>
     validate_transaction_entries tbl c = validate_transaction_entries tbl c'"
  by (simp add: validate_transaction_entries_def)

lemma validate_error_cases:
  "validate_transaction_entries tbl call = Inl e \<Longrightarrow>
     (e = RaiseException msg_too_few_lines \<and> v_count tbl (v_tx_id call) < 2) \<or>
     (e = RaiseException msg_unbalanced \<and> 2 \<le> v_count tbl (v_tx_id call) \<and>
        v_sum tbl (v_tx_id call) \<noteq> 0)"
  by (auto simp: validate_transaction_entries_def Let_def split: if_splits)

lemma messages_differ: "msg_too_few_lines \<noteq> msg_unbalanced"
  by (simp add: msg_too_few_lines_def msg_unbalanced_def)

lemma fire_deferred_all_ok:
  "\<forall>c\<in>set calls. validate_transaction_entries tbl c = Inr () \<Longrightarrow>
     fire_deferred tbl calls n = (Inr (), n + length calls)"
  by (induction calls arbitrary: n) auto

lemma fire_deferred_fails:
  "c \<in> set calls \<Longrightarrow> validate_transaction_entries tbl c \<noteq> Inr () \<Longrightarrow>
     \<exists>e m. fire_deferred tbl calls n = (Inl e, m)"
proof (induction calls arbitrary: n)
  case Nil
  then show ?case by simp
next
  case (Cons a calls)
  show ?case
  proof (cases "validate_transaction_entries tbl a")
    case (Inl e)
    then show ?thesis by simp
  next
    case (Inr u)
    with Cons.prems have "c \<in> set calls" by auto
    from Cons.IH[OF this Cons.prems(2)] Inr show ?thesis by simp
  qed
qed

lemma fire_deferred_error_origin:
  "fire_deferred tbl calls n = (Inl e, m) \<Longrightarrow>
     \<exists>c\<in>set calls. validate_transaction_entries tbl c = Inl e"
  by (induction calls arbitrary: n) (auto split: sum.splits)

lemma fire_deferred_one_header:
  "c \<in> set calls \<Longrightarrow> \<forall>c'\<in>set calls. v_tx_id c' = v_tx_id c \<Longrightarrow>
     fst (fire_deferred tbl calls n) = validate_transaction_entries tbl c"
proof (induction calls arbitrary: n)
  case Nil
  then show ?case by simp
next
  case (Cons a calls)
  have same: "validate_transaction_entries tbl a = validate_transaction_entries tbl c"
    using Cons.prems(2) by (intro validate_same_header) simp
  show ?case
  proof (cases "validate_transaction_entries tbl c")
    case (Inl e)
    with same show ?thesis by simp
  next
    case (Inr u)
    have "\<forall>c'\<in>set (a # calls). validate_transaction_entries tbl c' = Inr ()"
    proof
      fix c' assume "c' \<in> set (a # calls)"
      with Cons.prems(2) have "v_tx_id c' = v_tx_id c" by blast
      from validate_same_header[OF this] Inr
      show "validate_transaction_entries tbl c' = Inr ()" by simp
    qed
    from fire_deferred_all_ok[OF this] Inr show ?thesis by simp
  qed
qed

lemma run_tx_commit:
  "exec_stmts cs (begin_tx db) = Inr s \<Longrightarrow>
     fire_deferred (transaction_entries (cur s)) (pending s) 0 = (Inr (), n) \<Longrightarrow>
     run_tx db cs = \<lparr>outcome = Inr (), committed = cur s, checks = n\<rparr>"
  by (simp add: run_tx_def)

lemma run_tx_abort:
  "exec_stmts cs (begin_tx db) = Inr s \<Longrightarrow>
     fire_deferred (transaction_entries (cur s)) (pending s) 0 = (Inl e, n) \<Longrightarrow>
     run_tx db cs = \<lparr>outcome = Inl e, committed = db, checks = n\<rparr>"
  by (simp add: run_tx_def)

lemma run_tx_outcome:
  "exec_stmts cs (begin_tx db) = Inr s \<Longrightarrow>
     outcome (run_tx db cs) = fst (fire_deferred (transaction_entries (cur s)) (pending s) 0)"
  by (auto simp: run_tx_def split: sum.splits prod.splits)

lemma run_tx_rollback:
  "outcome (run_tx db cs) \<noteq> Inr () \<Longrightarrow> committed (run_tx db cs) = db"
  by (auto simp: run_tx_def split: sum.splits prod.splits)

lemma insert_rows_ok:
  "distinct (map entry_id rows) \<Longrightarrow>
   \<forall>r\<in>set rows. entry_id r \<notin> set (map entry_id (transaction_entries (cur s))) \<and> entry_fk_ok (cur s) r \<Longrightarrow>
   insert_rows rows s =
     Inr \<lparr>cur = (cur s)\<lparr>transaction_entries := transaction_entries (cur s) @ rows\<rparr>,
          pending = pending s @ map TgInsert rows\<rparr>"
proof (induction rows arbitrary: s)
  case Nil
  then show ?case by simp
next
  case (Cons r rows)
  let ?s' = "\<lparr>cur = (cur s)\<lparr>transaction_entries := transaction_entries (cur s) @ [r]\<rparr>,
              pending = pending s @ [TgInsert r]\<rparr>"
  have d: "distinct (map entry_id rows)" using Cons.prems(1) by simp
  have "\<forall>x\<in>set rows. entry_id x \<notin> set (map entry_id (transaction_entries (cur ?s'))) \<and> entry_fk_ok (cur ?s') x"
    using Cons.prems by (auto simp: entry_fk_ok_def image_iff)
  from Cons.IH[OF d this] Cons.prems show ?case by simp
qed

lemma insert_rows_result:
  "insert_rows rows s = Inr s' \<Longrightarrow>
     transaction_entries (cur s') = transaction_entries (cur s) @ rows \<and>
     transactions (cur s') = transactions (cur s) \<and>
     pending s' = pending s @ map TgInsert rows"
  by (induction rows arbitrary: s) (auto split: if_splits)

lemma run_tx_all_ok:
  assumes "exec_stmts cs (begin_tx db) = Inr s"
    and "\<forall>c\<in>set (pending s). validate_transaction_entries (transaction_entries (cur s)) c = Inr ()"
  shows "run_tx db cs = \<lparr>outcome = Inr (), committed = cur s, checks = length (pending s)\<rparr>"
proof -
  from fire_deferred_all_ok[OF assms(2)]
  have "fire_deferred (transaction_entries (cur s)) (pending s) 0 =
          (Inr (), 0 + length (pending s))" .
  from run_tx_commit[OF assms(1) this] show ?thesis by simp
qed

lemma run_tx_some_bad:
  assumes "exec_stmts cs (begin_tx db) = Inr s"
    and "c \<in> set (pending s)"
    and "validate_transaction_entries (transaction_entries (cur s)) c \<noteq> Inr ()"
  shows "(\<exists>e. outcome (run_tx db cs) = Inl e) \<and> committed (run_tx db cs) = db"
proof -
  from fire_deferred_fails[OF assms(2,3)] obtain e m where
    "fire_deferred (transaction_entries (cur s)) (pending s) 0 = (Inl e, m)" by blast
  from run_tx_abort[OF assms(1) this] show ?thesis by simp
qed

text \<open>The commit surfaces the verdict of the first queued firing that fails.\<close>

lemma fire_deferred_first_failure:
  "fst (fire_deferred tbl calls n) =
     (case find (\<lambda>c. validate_transaction_entries tbl c \<noteq> Inr ()) calls of
        None \<Rightarrow> Inr ()
      | Some c \<Rightarrow> validate_transaction_entries tbl c)"
proof (induction calls arbitrary: n)
  case Nil
  then show ?case by simp
next
  case (Cons a calls)
  show ?case
  proof (cases "validate_transaction_entries tbl a")
    case (Inl e)
    then show ?thesis by simp
  next
    case (Inr u)
    with Cons.IH[of "Suc n"] show ?thesis by simp
  qed
qed

lemma run_tx_error_origin:
  assumes "exec_stmts cs (begin_tx db) = Inr s"
    and "outcome (run_tx db cs) = Inl e"
  shows "\<exists>c\<in>set (pending s). validate_transaction_entries (transaction_entries (cur s)) c = Inl e"
proof -
  obtain r n where f: "fire_deferred (transaction_entries (cur s)) (pending s) 0 = (r, n)"
    by (cases "fire_deferred (transaction_entries (cur s)) (pending s) 0")
  with assms have "r = Inl e" by (auto simp: run_tx_def split: sum.splits)
  with f fire_deferred_error_origin show ?thesis by blast
qed

lemma sum_list_all_zero:
  "\<forall>r\<in>set xs. amount r = 0 \<Longrightarrow> sum_list (map amount xs) = 0"
  by (induction xs) auto

lemma exec_replace:
  assumes "h \<in> set (map tx_id (transactions db))"
    and "\<forall>r\<in>set new. transaction_id r = h \<and> account_id r \<in> set (accounts db)"
    and "distinct (map entry_id new)"
    and "\<forall>r\<in>set new. entry_id r \<notin>
           set (map entry_id (filter (\<lambda>r. transaction_id r \<noteq> h) (transaction_entries db)))"
  shows "exec_stmts [DeleteEntries (\<lambda>r. transaction_id r = h), InsertEntries new] (begin_tx db) =
     Inr \<lparr>cur = db\<lparr>transaction_entries :=
                  filter (\<lambda>r. transaction_id r \<noteq> h) (transaction_entries db) @ new\<rparr>,
          pending = map TgDelete (lines_of (transaction_entries db) h) @ map TgInsert new\<rparr>"
proof -
  let ?s1 = "\<lparr>cur = db\<lparr>transaction_entries :=
                  filter (\<lambda>r. transaction_id r \<noteq> h) (transaction_entries db)\<rparr>,
              pending = map TgDelete (lines_of (transaction_entries db) h)\<rparr>"
  have fresh: "\<forall>r\<in>set new. entry_id r \<notin> set (map entry_id (transaction_entries (cur ?s1)))
                 \<and> entry_fk_ok (cur ?s1) r"
    using assms(1,2,4) by (simp add: entry_fk_ok_def)
  from insert_rows_ok[OF assms(3) fresh]
  show ?thesis by (simp add: begin_tx_def lines_of_def)
qed

lemma lines_of_replace:
  "\<forall>r\<in>set new. transaction_id r = h \<Longrightarrow>
     lines_of (filter (\<lambda>r. transaction_id r \<noteq> h) tbl @ new) h = new"
proof -
  assume a: "\<forall>r\<in>set new. transaction_id r = h"
  have "filter (\<lambda>r. transaction_id r = h) new = new" using a by (simp add: filter_id_conv)
  moreover have "filter (\<lambda>r. transaction_id r = h) (filter (\<lambda>r. transaction_id r \<noteq> h) tbl) = []"
    by (simp add: filter_empty_conv)
  ultimately show ?thesis by (simp add: lines_of_def)
qed

lemmas run_defs = run_tx_def begin_tx_def entry_fk_ok_def validate_transaction_entries_def
  v_count_def v_sum_def lines_of_def

lemma rls_characterised:
  "transaction_entries_rls permissive db (Some u) row =
     (list_ex (\<lambda>p. p db (Some u) row) permissive \<and> is_company_member db u (company_id row))"
  by (simp add: transaction_entries_rls_def rls_check_def
      company_members_manage_transaction_entries_def)

lemma rls_unauthenticated:
  "\<not> transaction_entries_rls permissive db None row"
  by (simp add: transaction_entries_rls_def rls_check_def
      company_members_manage_transaction_entries_def)

lemma run_tx_success:
  assumes "outcome (run_tx db cs) = Inr ()"
  shows "\<exists>s. exec_stmts cs (begin_tx db) = Inr s \<and> committed (run_tx db cs) = cur s"
  using assms by (auto simp: run_tx_def split: sum.splits prod.splits)

lemma insert_header_consistent:
  assumes "tenant_consistent db" and "fk_consistent db"
    and "tx_id t \<notin> set (map tx_id (transactions db))"
  shows "tenant_consistent (db\<lparr>transactions := transactions db @ [t]\<rparr>)"
proof -
  have "\<forall>r\<in>set (transaction_entries db). tx_id t \<noteq> transaction_id r"
    using assms(2,3) by (auto simp: fk_consistent_def entry_fk_ok_def list_all_iff)
  with assms(1) show ?thesis
    by (auto simp: tenant_consistent_def list_all_iff)
qed

lemma append_rows_consistent:
  assumes "tenant_consistent db"
    and "\<forall>r\<in>set rows. \<forall>t\<in>set (transactions db).
           tx_id t = transaction_id r \<longrightarrow> tx_company_id t = company_id r"
    and "transactions db' = transactions db"
    and "transaction_entries db' = transaction_entries db @ rows"
  shows "tenant_consistent db'"
  using assms by (auto simp: tenant_consistent_def list_all_iff)

lemma onSubmit_entry_rows_fields:
  "r \<in> set (onSubmit_entry_rows tid cid ids ls) \<Longrightarrow> transaction_id r = tid \<and> company_id r = cid"
  by (auto simp: onSubmit_entry_rows_def)

text \<open>With the policies that the migrations declare, no row passes for anyone.\<close>

lemma declared_policies_deny:
  "\<not> transaction_entries_rls declared_permissive_policies db auth_uid row"
  by (simp add: transaction_entries_rls_def rls_check_def declared_permissive_policies_def)

text \<open>
  Deleting a header that has lines never commits: the cascade queues a firing
  for each of its lines, and at commit the header has no line left.
\<close>

lemma delete_header_with_lines_rejected:
  assumes "h \<in> set (map tx_id (transactions db))"
    and "r \<in> set (lines_of (transaction_entries db) h)"
  shows "outcome (run_tx db [DeleteTransactions (\<lambda>t. tx_id t = h)]) =
           Inl (RaiseException msg_too_few_lines)
         \<and> committed (run_tx db [DeleteTransactions (\<lambda>t. tx_id t = h)]) = db"
proof -
  let ?cs = "[DeleteTransactions (\<lambda>t. tx_id t = h)]"
  let ?T = "filter (\<lambda>r. transaction_id r \<noteq> h) (transaction_entries db)"
  let ?s = "\<lparr>cur = db\<lparr>transactions := filter (\<lambda>t. tx_id t \<noteq> h) (transactions db),
                      transaction_entries := ?T\<rparr>,
            pending = map TgDelete (lines_of (transaction_entries db) h)\<rparr>"
  have gone: "set (map tx_id (filter (\<lambda>t. tx_id t = h) (transactions db))) = {h}"
    using assms(1) by auto
  have ex: "exec_stmts ?cs (begin_tx db) = Inr ?s"
    by (simp add: begin_tx_def gone lines_of_def del: set_map)
  have mem: "TgDelete r \<in> set (pending ?s)" using assms(2) by simp
  have r_h: "transaction_id r = h" using assms(2) by (simp add: lines_of_def)
  have one: "\<forall>c'\<in>set (pending ?s). v_tx_id c' = v_tx_id (TgDelete r)"
    using r_h by (auto simp: lines_of_def)
  have "v_count ?T h = 0" by (simp add: v_count_def lines_of_def filter_empty_conv)
  then have v: "validate_transaction_entries (transaction_entries (cur ?s)) (TgDelete r) =
                  Inl (RaiseException msg_too_few_lines)"
    using r_h by (simp add: validate_too_few)
  from fire_deferred_one_header[OF mem one, of "transaction_entries (cur ?s)" 0]
    run_tx_outcome[OF ex] v
  have out: "outcome (run_tx db ?cs) = Inl (RaiseException msg_too_few_lines)" by simp
  then have "outcome (run_tx db ?cs) \<noteq> Inr ()" by simp
  from run_tx_rollback[OF this] out show ?thesis by simp
qed

lemmas ex_defs = ex_start_def ex_headers_def ex_lines_def ex_db_def line_def

section \<open>The claims\<close>

text \<open>
  C1 on the code: from \<open>ex_start\<close>, the transaction that creates headers 1 and 2
  commits and leaves \<open>ex_db\<close>, where the invariant holds. Then a single UPDATE
  moves line 1 from header 1 to header 2 with amount 0. The only firing queued is
  for the row's new header 2, which is balanced, so the transaction commits.
  Header 1 is left with one line of -100: the committed state breaks the
  invariant.
\<close>

theorem moved_line_breaks_invariant:
  "committed (run_tx ex_start tx_create) = ex_db
   \<and> balance_invariant ex_db
   \<and> queued ex_db tx_move_line = [TgUpdate (line 1 1 1 1 100) (line 1 2 1 1 0)]
   \<and> outcome (run_tx ex_db tx_move_line) = Inr ()
   \<and> run_txs ex_start [tx_create, tx_move_line] =
       ex_db\<lparr>transaction_entries :=
               [line 1 2 1 1 0, line 2 1 1 2 (- 100), line 3 2 1 1 50, line 4 2 1 2 (- 50)]\<rparr>
   \<and> v_count (transaction_entries (run_txs ex_start [tx_create, tx_move_line])) 1 = 1
   \<and> v_sum (transaction_entries (run_txs ex_start [tx_create, tx_move_line])) 1 = - 100
   \<and> \<not> balance_invariant (run_txs ex_start [tx_create, tx_move_line])"
  by (simp add: tx_create_def tx_move_line_def ex_defs run_defs queued_def
      balance_invariant_def header_balanced_def)

text \<open>
  C2. The edit pattern on a header \<open>h\<close>: delete all lines of \<open>h\<close>, then insert a new
  set of lines of \<open>h\<close> (existing accounts, primary keys that are fresh among the
  rows that stay) whose amounts add up to zero, at least two of them. After the
  delete the header has no line at all; the transaction commits all the same, and
  the committed table holds the other headers' lines followed by the new set.
  Whether the lines stored before were balanced plays no part.
\<close>

theorem replace_all_lines_commits:
  assumes "h \<in> set (map tx_id (transactions db))"
    and "\<forall>r\<in>set new. transaction_id r = h \<and> account_id r \<in> set (accounts db)"
    and "distinct (map entry_id new)"
    and "\<forall>r\<in>set new. entry_id r \<notin>
           set (map entry_id (filter (\<lambda>r. transaction_id r \<noteq> h) (transaction_entries db)))"
    and "sum_list (map amount new) = 0"
    and "2 \<le> length new"
  shows "exec_stmts [DeleteEntries (\<lambda>r. transaction_id r = h)] (begin_tx db) =
           Inr \<lparr>cur = db\<lparr>transaction_entries :=
                        filter (\<lambda>r. transaction_id r \<noteq> h) (transaction_entries db)\<rparr>,
                pending = map TgDelete (lines_of (transaction_entries db) h)\<rparr>
         \<and> v_count (filter (\<lambda>r. transaction_id r \<noteq> h) (transaction_entries db)) h = 0
         \<and> outcome (run_tx db [DeleteEntries (\<lambda>r. transaction_id r = h), InsertEntries new]) = Inr ()
         \<and> transaction_entries
              (committed (run_tx db [DeleteEntries (\<lambda>r. transaction_id r = h), InsertEntries new])) =
             filter (\<lambda>r. transaction_id r \<noteq> h) (transaction_entries db) @ new"
proof -
  let ?cs = "[DeleteEntries (\<lambda>r. transaction_id r = h), InsertEntries new]"
  let ?T = "filter (\<lambda>r. transaction_id r \<noteq> h) (transaction_entries db) @ new"
  let ?s = "\<lparr>cur = db\<lparr>transaction_entries := ?T\<rparr>,
            pending = map TgDelete (lines_of (transaction_entries db) h) @ map TgInsert new\<rparr>"
  have ex: "exec_stmts ?cs (begin_tx db) = Inr ?s"
    by (rule exec_replace[OF assms(1-4)])
  have new_h: "\<forall>r\<in>set new. transaction_id r = h" using assms(2) by simp
  have lines: "lines_of ?T h = new" by (rule lines_of_replace[OF new_h])
  have hdr: "\<forall>c\<in>set (pending ?s). v_tx_id c = h"
    using new_h by (auto simp: lines_of_def)
  have "\<forall>c\<in>set (pending ?s). validate_transaction_entries (transaction_entries (cur ?s)) c = Inr ()"
  proof
    fix c assume "c \<in> set (pending ?s)"
    with hdr have "v_tx_id c = h" by blast
    then show "validate_transaction_entries (transaction_entries (cur ?s)) c = Inr ()"
      using lines assms(5,6) by (simp add: validate_ok_iff v_count_def v_sum_def)
  qed
  from run_tx_all_ok[OF ex this]
  have run: "run_tx db ?cs = \<lparr>outcome = Inr (), committed = cur ?s, checks = length (pending ?s)\<rparr>" .
  have del: "exec_stmts [DeleteEntries (\<lambda>r. transaction_id r = h)] (begin_tx db) =
           Inr \<lparr>cur = db\<lparr>transaction_entries :=
                        filter (\<lambda>r. transaction_id r \<noteq> h) (transaction_entries db)\<rparr>,
                pending = map TgDelete (lines_of (transaction_entries db) h)\<rparr>"
    by (simp add: begin_tx_def lines_of_def)
  have zero: "v_count (filter (\<lambda>r. transaction_id r \<noteq> h) (transaction_entries db)) h = 0"
    by (simp add: v_count_def lines_of_def filter_empty_conv)
  from del zero run show ?thesis by simp
qed

text \<open>
  Header 1 of \<open>ex_db\<close> is balanced with two lines; replacing them by three lines
  300, -150, -150 commits.
\<close>

theorem replace_all_lines_commits_witness:
  "header_balanced (transaction_entries ex_db) 1
   \<and> v_count (transaction_entries ex_db) 1 = 2
   \<and> tx_replace = [DeleteEntries (\<lambda>r. transaction_id r = 1),
                    InsertEntries [line 5 1 1 1 300, line 6 1 1 2 (- 150), line 7 1 1 2 (- 150)]]
   \<and> outcome (run_tx ex_db tx_replace) = Inr ()
   \<and> transaction_entries (committed (run_tx ex_db tx_replace)) =
       [line 3 2 1 1 50, line 4 2 1 2 (- 50),
        line 5 1 1 1 300, line 6 1 1 2 (- 150), line 7 1 1 2 (- 150)]"
proof -
  let ?new = "[line 5 1 1 1 300, line 6 1 1 2 (- 150), line 7 1 1 2 (- 150)]"
  have a1: "(1::nat) \<in> set (map tx_id (transactions ex_db))" by (simp add: ex_defs)
  have a2: "\<forall>r\<in>set ?new. transaction_id r = 1 \<and> account_id r \<in> set (accounts ex_db)"
    by (simp add: ex_defs)
  have a3: "distinct (map entry_id ?new)" by (simp add: line_def)
  have a4: "\<forall>r\<in>set ?new. entry_id r \<notin>
           set (map entry_id (filter (\<lambda>r. transaction_id r \<noteq> 1) (transaction_entries ex_db)))"
    by (simp add: ex_defs)
  have a5: "sum_list (map amount ?new) = 0" by (simp add: line_def)
  have a6: "2 \<le> length ?new" by simp
  have b: "header_balanced (transaction_entries ex_db) 1 \<and> v_count (transaction_entries ex_db) 1 = 2"
    by (simp add: header_balanced_def ex_defs v_count_def v_sum_def lines_of_def)
  have f: "filter (\<lambda>r. transaction_id r \<noteq> 1) (transaction_entries ex_db) =
             [line 3 2 1 1 50, line 4 2 1 2 (- 50)]"
    by (simp add: ex_defs)
  from replace_all_lines_commits[OF a1 a2 a3 a4 a5 a6] b f
  show ?thesis by (simp add: tx_replace_def)
qed

text \<open>
  C3, as stated, fails at two inputs on \<open>ex_db\<close>. The UPDATE that moves line 1
  from header 1 to header 2 writes a line of header 1 and leaves that header
  with one line, yet no firing is queued for header 1 and the commit succeeds.
  And in a transaction that writes header 3 with lines 100 and -90 and then
  header 4 with a single line, header 4 ends with one line, but the commit is
  rejected with the unbalanced exception of header 3, whose firing comes first.
\<close>

theorem too_few_lines_counterexample:
  "queued ex_db tx_move_line = [TgUpdate (line 1 1 1 1 100) (line 1 2 1 1 0)]
   \<and> dirty_headers (queued ex_db tx_move_line) = [2]
   \<and> outcome (run_tx ex_db tx_move_line) = Inr ()
   \<and> v_count (transaction_entries (committed (run_tx ex_db tx_move_line))) 1 = 1
   \<and> dirty_headers (queued ex_db tx_two_bad_headers) = [3, 4]
   \<and> v_count (ex_lines @ [line 8 3 1 1 100, line 9 3 1 2 (- 90), line 10 4 1 1 70]) 4 = 1
   \<and> outcome (run_tx ex_db tx_two_bad_headers) = Inl (RaiseException msg_unbalanced)
   \<and> outcome (run_tx ex_db tx_two_bad_headers) \<noteq> Inl (RaiseException msg_too_few_lines)
   \<and> committed (run_tx ex_db tx_two_bad_headers) = ex_db"
  by (simp add: tx_move_line_def tx_two_bad_headers_def ex_defs run_defs queued_def
      dirty_headers_def msg_too_few_lines_def msg_unbalanced_def)

text \<open>
  C3, amended. Let an ambient transaction run its statements and reach commit
  with a firing \<open>c\<close> queued for a header: a line inserted into it, deleted from
  it, or updated with that header as its new \<open>transaction_id\<close>. If the header's
  final line count is below 2, its check raises the too-few-lines exception
  whatever the sum; if the count is at least 2 and the final sum is not zero, it
  raises the unbalanced exception. In both cases the commit is rejected and the
  committed state is the one from before the transaction, header rows included.
  The exception the caller gets is that of the first queued firing whose check
  fails; when all queued firings are for that one header, it is exactly that of
  its check. Any outcome other than success leaves the committed state
  untouched. Nothing is said here about a header that an UPDATE moved a line
  away from.
\<close>

theorem bad_final_lines_rejected:
  assumes "exec_stmts cs (begin_tx db) = Inr s"
    and "c \<in> set (pending s)"
  shows "(v_count (transaction_entries (cur s)) (v_tx_id c) < 2 \<longrightarrow>
            validate_transaction_entries (transaction_entries (cur s)) c =
              Inl (RaiseException msg_too_few_lines)
            \<and> (\<exists>e. outcome (run_tx db cs) = Inl e) \<and> committed (run_tx db cs) = db)
       \<and> (2 \<le> v_count (transaction_entries (cur s)) (v_tx_id c)
            \<and> v_sum (transaction_entries (cur s)) (v_tx_id c) \<noteq> 0 \<longrightarrow>
            validate_transaction_entries (transaction_entries (cur s)) c =
              Inl (RaiseException msg_unbalanced)
            \<and> (\<exists>e. outcome (run_tx db cs) = Inl e) \<and> committed (run_tx db cs) = db)
       \<and> ((\<forall>c'\<in>set (pending s). v_tx_id c' = v_tx_id c) \<longrightarrow>
            outcome (run_tx db cs) =
              validate_transaction_entries (transaction_entries (cur s)) c)
       \<and> (\<forall>e. outcome (run_tx db cs) = Inl e \<longrightarrow>
            (\<exists>c'\<in>set (pending s).
               validate_transaction_entries (transaction_entries (cur s)) c' = Inl e))
       \<and> outcome (run_tx db cs) =
            (case find (\<lambda>c'. validate_transaction_entries (transaction_entries (cur s)) c'
                               \<noteq> Inr ()) (pending s) of
               None \<Rightarrow> Inr ()
             | Some c' \<Rightarrow> validate_transaction_entries (transaction_entries (cur s)) c')
       \<and> (outcome (run_tx db cs) \<noteq> Inr () \<longrightarrow> committed (run_tx db cs) = db)"
proof -
  let ?T = "transaction_entries (cur s)"
  have few: "v_count ?T (v_tx_id c) < 2 \<longrightarrow>
            validate_transaction_entries ?T c = Inl (RaiseException msg_too_few_lines)
            \<and> (\<exists>e. outcome (run_tx db cs) = Inl e) \<and> committed (run_tx db cs) = db"
  proof
    assume "v_count ?T (v_tx_id c) < 2"
    from validate_too_few[OF this]
    have v: "validate_transaction_entries ?T c = Inl (RaiseException msg_too_few_lines)" .
    then have "validate_transaction_entries ?T c \<noteq> Inr ()" by simp
    from run_tx_some_bad[OF assms this] v
    show "validate_transaction_entries ?T c = Inl (RaiseException msg_too_few_lines)
            \<and> (\<exists>e. outcome (run_tx db cs) = Inl e) \<and> committed (run_tx db cs) = db"
      by simp
  qed
  have unb: "2 \<le> v_count ?T (v_tx_id c) \<and> v_sum ?T (v_tx_id c) \<noteq> 0 \<longrightarrow>
            validate_transaction_entries ?T c = Inl (RaiseException msg_unbalanced)
            \<and> (\<exists>e. outcome (run_tx db cs) = Inl e) \<and> committed (run_tx db cs) = db"
  proof
    assume a: "2 \<le> v_count ?T (v_tx_id c) \<and> v_sum ?T (v_tx_id c) \<noteq> 0"
    then have v: "validate_transaction_entries ?T c = Inl (RaiseException msg_unbalanced)"
      by (simp add: validate_unbalanced)
    then have "validate_transaction_entries ?T c \<noteq> Inr ()" by simp
    from run_tx_some_bad[OF assms this] v
    show "validate_transaction_entries ?T c = Inl (RaiseException msg_unbalanced)
            \<and> (\<exists>e. outcome (run_tx db cs) = Inl e) \<and> committed (run_tx db cs) = db"
      by simp
  qed
  have one: "(\<forall>c'\<in>set (pending s). v_tx_id c' = v_tx_id c) \<longrightarrow>
            outcome (run_tx db cs) = validate_transaction_entries ?T c"
    using fire_deferred_one_header[OF assms(2), of ?T 0] run_tx_outcome[OF assms(1)] by simp
  have origin: "\<forall>e. outcome (run_tx db cs) = Inl e \<longrightarrow>
            (\<exists>c'\<in>set (pending s). validate_transaction_entries ?T c' = Inl e)"
    using run_tx_error_origin[OF assms(1)] by blast
  have rb: "outcome (run_tx db cs) \<noteq> Inr () \<longrightarrow> committed (run_tx db cs) = db"
    using run_tx_rollback by blast
  have first: "outcome (run_tx db cs) =
            (case find (\<lambda>c'. validate_transaction_entries ?T c' \<noteq> Inr ()) (pending s) of
               None \<Rightarrow> Inr ()
             | Some c' \<Rightarrow> validate_transaction_entries ?T c')"
    using fire_deferred_first_failure[of ?T "pending s" 0] run_tx_outcome[OF assms(1)] by simp
  from few unb one origin first rb show ?thesis by blast
qed

text \<open>
  On \<open>ex_db\<close>: a new header 3 with one line of 50 is rejected with the
  too-few-lines exception, a new header 3 with lines 100 and -90 with the
  unbalanced exception; neither the lines nor header 3 persist.
\<close>

theorem bad_final_lines_rejected_witness:
  "exec_stmts tx_one_line (begin_tx ex_db) =
     Inr \<lparr>cur = ex_db\<lparr>transactions := ex_headers @ [\<lparr>tx_id = 3, tx_company_id = 1, tx_amount = 50\<rparr>],
                        transaction_entries := ex_lines @ [line 8 3 1 1 50]\<rparr>,
          pending = [TgInsert (line 8 3 1 1 50)]\<rparr>
   \<and> v_count (ex_lines @ [line 8 3 1 1 50]) 3 = 1
   \<and> outcome (run_tx ex_db tx_one_line) = Inl (RaiseException msg_too_few_lines)
   \<and> committed (run_tx ex_db tx_one_line) = ex_db
   \<and> v_count (ex_lines @ [line 8 3 1 1 100, line 9 3 1 2 (- 90)]) 3 = 2
   \<and> v_sum (ex_lines @ [line 8 3 1 1 100, line 9 3 1 2 (- 90)]) 3 = 10
   \<and> outcome (run_tx ex_db tx_unbalanced) = Inl (RaiseException msg_unbalanced)
   \<and> committed (run_tx ex_db tx_unbalanced) = ex_db"
proof -
  let ?s = "\<lparr>cur = ex_db\<lparr>transactions := ex_headers @ [\<lparr>tx_id = 3, tx_company_id = 1, tx_amount = 50\<rparr>],
                        transaction_entries := ex_lines @ [line 8 3 1 1 50]\<rparr>,
          pending = [TgInsert (line 8 3 1 1 50)]\<rparr>"
  have ex: "exec_stmts tx_one_line (begin_tx ex_db) = Inr ?s"
    by (simp add: tx_one_line_def ex_defs begin_tx_def entry_fk_ok_def)
  have mem: "TgInsert (line 8 3 1 1 50) \<in> set (pending ?s)" by simp
  have cnt: "v_count (ex_lines @ [line 8 3 1 1 50]) 3 = 1"
    by (simp add: ex_defs v_count_def lines_of_def)
  have hd: "v_tx_id (TgInsert (line 8 3 1 1 50)) = 3" by (simp add: line_def)
  let ?u = "\<lparr>cur = ex_db\<lparr>transactions := ex_headers @ [\<lparr>tx_id = 3, tx_company_id = 1, tx_amount = 100\<rparr>],
                        transaction_entries := ex_lines @ [line 8 3 1 1 100, line 9 3 1 2 (- 90)]\<rparr>,
          pending = [TgInsert (line 8 3 1 1 100), TgInsert (line 9 3 1 2 (- 90))]\<rparr>"
  have ex2: "exec_stmts tx_unbalanced (begin_tx ex_db) = Inr ?u"
    by (simp add: tx_unbalanced_def ex_defs begin_tx_def entry_fk_ok_def)
  have mem2: "TgInsert (line 8 3 1 1 100) \<in> set (pending ?u)" by simp
  have cnt2: "v_count (ex_lines @ [line 8 3 1 1 100, line 9 3 1 2 (- 90)]) 3 = 2
              \<and> v_sum (ex_lines @ [line 8 3 1 1 100, line 9 3 1 2 (- 90)]) 3 = 10"
    by (simp add: ex_defs v_count_def v_sum_def lines_of_def)
  have hd2: "v_tx_id (TgInsert (line 8 3 1 1 100)) = 3" by (simp add: line_def)
  have all2: "\<forall>c'\<in>set (pending ?u). v_tx_id c' = v_tx_id (TgInsert (line 8 3 1 1 100))"
    by (simp add: line_def)
  have first: "outcome (run_tx ex_db tx_one_line) = Inl (RaiseException msg_too_few_lines)
               \<and> committed (run_tx ex_db tx_one_line) = ex_db"
    using bad_final_lines_rejected[OF ex mem] cnt hd by simp
  have second: "outcome (run_tx ex_db tx_unbalanced) = Inl (RaiseException msg_unbalanced)
               \<and> committed (run_tx ex_db tx_unbalanced) = ex_db"
    using bad_final_lines_rejected[OF ex2 mem2] cnt2 hd2 all2 by simp
  from ex cnt cnt2 first second show ?thesis by simp
qed

text \<open>
  C4. Whatever an ambient transaction wrote: when every header with a queued
  firing ends with a line count of at least 2 and amounts that add up to exactly
  zero, no firing of the trigger function raises, the commit goes through and
  the transaction's final state becomes the committed state. The check itself
  passes exactly when the count is at least 2 and the sum equals zero; the sum is
  compared exactly, so no non-zero sum passes, however small.
\<close>

theorem balanced_lines_commit:
  assumes "exec_stmts cs (begin_tx db) = Inr s"
    and "\<forall>c\<in>set (pending s).
           v_sum (transaction_entries (cur s)) (v_tx_id c) = 0 \<and>
           2 \<le> v_count (transaction_entries (cur s)) (v_tx_id c)"
  shows "(\<forall>c\<in>set (pending s).
            validate_transaction_entries (transaction_entries (cur s)) c = Inr ())
         \<and> outcome (run_tx db cs) = Inr ()
         \<and> committed (run_tx db cs) = cur s
         \<and> ((validate_transaction_entries tbl call = Inr ()) =
              (2 \<le> v_count tbl (v_tx_id call) \<and> v_sum tbl (v_tx_id call) = 0))"
proof -
  have ok: "\<forall>c\<in>set (pending s).
              validate_transaction_entries (transaction_entries (cur s)) c = Inr ()"
    using assms(2) by (simp add: validate_ok_iff)
  from fire_deferred_all_ok[OF ok]
  have "fire_deferred (transaction_entries (cur s)) (pending s) 0 =
          (Inr (), 0 + length (pending s))" .
  from run_tx_commit[OF assms(1) this] ok validate_ok_iff[of tbl call]
  show ?thesis by simp
qed

text \<open>
  The transaction that creates headers 1 and 2 with two balancing lines each
  commits, and leaves \<open>ex_db\<close>.
\<close>

theorem balanced_lines_commit_witness:
  "exec_stmts tx_create (begin_tx ex_start) =
     Inr \<lparr>cur = ex_db, pending = map TgInsert ex_lines\<rparr>
   \<and> v_sum ex_lines 1 = 0 \<and> v_count ex_lines 1 = 2
   \<and> v_sum ex_lines 2 = 0 \<and> v_count ex_lines 2 = 2
   \<and> outcome (run_tx ex_start tx_create) = Inr ()
   \<and> committed (run_tx ex_start tx_create) = ex_db"
proof -
  let ?s = "\<lparr>cur = ex_db, pending = map TgInsert ex_lines\<rparr>"
  have ex: "exec_stmts tx_create (begin_tx ex_start) = Inr ?s"
    by (simp add: tx_create_def ex_defs begin_tx_def entry_fk_ok_def)
  have sums: "v_sum ex_lines 1 = 0 \<and> v_count ex_lines 1 = 2
              \<and> v_sum ex_lines 2 = 0 \<and> v_count ex_lines 2 = 2"
    by (simp add: ex_defs v_sum_def v_count_def lines_of_def)
  have bal: "\<forall>c\<in>set (pending ?s).
           v_sum (transaction_entries (cur ?s)) (v_tx_id c) = 0 \<and>
           2 \<le> v_count (transaction_entries (cur ?s)) (v_tx_id c)"
    by (simp add: ex_defs v_sum_def v_count_def lines_of_def)
  from balanced_lines_commit[OF ex bal] ex sums show ?thesis by simp
qed

text \<open>
  C5, as stated, fails: user 7 holds the global admin role and is a member of no
  company, so the specification's rule grants access to tenant 1; the policy on
  \<open>transaction_entries\<close> denies the row, also when a permissive policy lets
  everything pass, and a SELECT returns nothing.
\<close>

theorem admin_access_counterexample:
  "has_role ex_db 7 admin
   \<and> spec_canAccess ex_db 7 (company_id (line 1 1 1 1 100))
   \<and> \<not> transaction_entries_rls declared_permissive_policies ex_db (Some 7) (line 1 1 1 1 100)
   \<and> \<not> transaction_entries_rls [permit_all] ex_db (Some 7) (line 1 1 1 1 100)
   \<and> select_entries [permit_all] ex_db (Some 7) = []"
  by (simp add: ex_defs has_role_def spec_canAccess_def is_company_member_def
      transaction_entries_rls_def rls_check_def declared_permissive_policies_def
      company_members_manage_transaction_entries_def permit_all_def select_entries_def)

text \<open>
  C5, amended. The policy on \<open>transaction_entries\<close> is restrictive and asks for a
  \<open>company_users\<close> row that links the acting principal to the row's company, of
  any role; the admin role is not consulted. So the decision on a row is true
  only for a member of the row's company (and then when a permissive policy of
  the table passes as well), and never for an unauthenticated request. A
  principal who is not a member of tenant \<open>T\<close>, admin or not, passes the decision
  for no row of \<open>T\<close>, old or new, and a SELECT returns no row of \<open>T\<close> to that
  principal.
\<close>

theorem entry_access_needs_membership:
  assumes "\<not> is_company_member db uid T"
  shows "(company_id row = T \<longrightarrow> \<not> transaction_entries_rls permissive db (Some uid) row)
       \<and> filter (\<lambda>r. company_id r = T) (select_entries permissive db (Some uid)) = []
       \<and> (transaction_entries_rls permissive db (Some u) row' =
            (list_ex (\<lambda>p. p db (Some u) row') permissive \<and>
             is_company_member db u (company_id row')))
       \<and> \<not> transaction_entries_rls permissive db None row'"
proof -
  have a: "company_id row = T \<longrightarrow> \<not> transaction_entries_rls permissive db (Some uid) row"
    using assms by (simp add: rls_characterised)
  have b: "filter (\<lambda>r. company_id r = T) (select_entries permissive db (Some uid)) = []"
    using assms by (auto simp: select_entries_def filter_empty_conv rls_characterised)
  from a b rls_characterised[of permissive db u row'] rls_unauthenticated[of permissive db row']
  show ?thesis by blast
qed

text \<open>
  User 6 is a member of company 2 only: with a permissive policy that lets
  everything pass, a SELECT by user 6 returns no line of company 1, and line 1
  is denied.
\<close>

theorem entry_access_needs_membership_witness:
  "\<not> is_company_member ex_db 6 1
   \<and> company_id (line 1 1 1 1 100) = 1
   \<and> \<not> transaction_entries_rls [permit_all] ex_db (Some 6) (line 1 1 1 1 100)
   \<and> filter (\<lambda>r. company_id r = 1) (select_entries [permit_all] ex_db (Some 6)) = []"
proof -
  have nm: "\<not> is_company_member ex_db 6 1" by (simp add: ex_defs is_company_member_def)
  have c: "company_id (line 1 1 1 1 100) = 1" by (simp add: line_def)
  from entry_access_needs_membership[OF nm, of "line 1 1 1 1 100" "[permit_all]"] nm c
  show ?thesis by simp
qed

text \<open>
  C6, as stated, fails: the edit that deletes the two lines of header 1 and
  inserts three new ones touches one header only, and at commit the trigger
  function runs five times, once for every row written.
\<close>

theorem one_check_per_header_counterexample:
  "outcome (run_tx ex_db tx_replace) = Inr ()
   \<and> dirty_headers (queued ex_db tx_replace) = [1]
   \<and> checks (run_tx ex_db tx_replace) = 5"
  by (simp add: tx_replace_def ex_defs run_defs queued_def dirty_headers_def)

text \<open>
  C6, amended. The trigger is \<open>FOR EACH ROW\<close>: when a transaction commits, the
  trigger function has run once for every row firing queued, that is once for
  every row inserted, updated or deleted, each time against the final table.
  Firings for the same header return the same verdict. For the edit that deletes
  the lines of a header and inserts \<open>new\<close>, that is one run for each line deleted
  plus one for each line inserted.
\<close>

theorem one_check_per_row_written:
  assumes "exec_stmts cs (begin_tx db) = Inr s"
    and "outcome (run_tx db cs) = Inr ()"
  shows "checks (run_tx db cs) = length (pending s)
       \<and> (\<forall>c\<in>set (pending s). \<forall>c'\<in>set (pending s). v_tx_id c = v_tx_id c' \<longrightarrow>
            validate_transaction_entries (transaction_entries (cur s)) c =
            validate_transaction_entries (transaction_entries (cur s)) c')
       \<and> (cs = [DeleteEntries (\<lambda>r. transaction_id r = h), InsertEntries new] \<longrightarrow>
            checks (run_tx db cs) = v_count (transaction_entries db) h + length new)"
proof -
  let ?T = "transaction_entries (cur s)"
  have all_ok: "\<forall>c\<in>set (pending s). validate_transaction_entries ?T c = Inr ()"
  proof (rule ccontr)
    assume "\<not> (\<forall>c\<in>set (pending s). validate_transaction_entries ?T c = Inr ())"
    then obtain c where "c \<in> set (pending s)" "validate_transaction_entries ?T c \<noteq> Inr ()"
      by blast
    from run_tx_some_bad[OF assms(1) this] assms(2) show False by auto
  qed
  from run_tx_all_ok[OF assms(1) all_ok]
  have n: "checks (run_tx db cs) = length (pending s)" by simp
  have same: "\<forall>c\<in>set (pending s). \<forall>c'\<in>set (pending s). v_tx_id c = v_tx_id c' \<longrightarrow>
            validate_transaction_entries ?T c = validate_transaction_entries ?T c'"
    using validate_same_header by blast
  have rep: "cs = [DeleteEntries (\<lambda>r. transaction_id r = h), InsertEntries new] \<longrightarrow>
            checks (run_tx db cs) = v_count (transaction_entries db) h + length new"
  proof
    assume cs: "cs = [DeleteEntries (\<lambda>r. transaction_id r = h), InsertEntries new]"
    let ?s1 = "\<lparr>cur = db\<lparr>transaction_entries :=
                   filter (\<lambda>r. \<not> transaction_id r = h) (transaction_entries db)\<rparr>,
               pending = map TgDelete (filter (\<lambda>r. transaction_id r = h) (transaction_entries db))\<rparr>"
    from assms(1) cs have "insert_rows new ?s1 = Inr s"
      by (simp add: begin_tx_def split: sum.splits)
    from insert_rows_result[OF this]
    have "length (pending s) = v_count (transaction_entries db) h + length new"
      by (simp add: v_count_def lines_of_def)
    with n show "checks (run_tx db cs) = v_count (transaction_entries db) h + length new" by simp
  qed
  from n same rep show ?thesis by blast
qed

theorem one_check_per_row_written_witness:
  "exec_stmts tx_replace (begin_tx ex_db) =
     Inr \<lparr>cur = ex_db\<lparr>transaction_entries :=
                  [line 3 2 1 1 50, line 4 2 1 2 (- 50),
                   line 5 1 1 1 300, line 6 1 1 2 (- 150), line 7 1 1 2 (- 150)]\<rparr>,
          pending = [TgDelete (line 1 1 1 1 100), TgDelete (line 2 1 1 2 (- 100)),
                     TgInsert (line 5 1 1 1 300), TgInsert (line 6 1 1 2 (- 150)),
                     TgInsert (line 7 1 1 2 (- 150))]\<rparr>
   \<and> outcome (run_tx ex_db tx_replace) = Inr ()
   \<and> checks (run_tx ex_db tx_replace) = 5"
proof -
  let ?s = "\<lparr>cur = ex_db\<lparr>transaction_entries :=
                  [line 3 2 1 1 50, line 4 2 1 2 (- 50),
                   line 5 1 1 1 300, line 6 1 1 2 (- 150), line 7 1 1 2 (- 150)]\<rparr>,
          pending = [TgDelete (line 1 1 1 1 100), TgDelete (line 2 1 1 2 (- 100)),
                     TgInsert (line 5 1 1 1 300), TgInsert (line 6 1 1 2 (- 150)),
                     TgInsert (line 7 1 1 2 (- 150))]\<rparr>"
  have ex: "exec_stmts tx_replace (begin_tx ex_db) = Inr ?s"
    by (simp add: tx_replace_def ex_defs begin_tx_def entry_fk_ok_def)
  have ok: "outcome (run_tx ex_db tx_replace) = Inr ()"
    by (simp add: tx_replace_def ex_defs run_defs)
  from one_check_per_row_written[OF ex ok] ex ok show ?thesis by simp
qed

text \<open>
  C7 on the code: deleting header 1 of \<open>ex_db\<close> cascades to its two lines, each
  cascaded delete queues a firing for header 1, and at commit header 1 has no
  line left, so the first firing raises the too-few-lines exception: the delete
  is rolled back. The delete of the header's lines alone, which the page sends
  before it deletes the header, is rejected in the same way.
\<close>

theorem header_delete_rejected:
  "exec_stmts tx_delete_header (begin_tx ex_db) =
     Inr \<lparr>cur = ex_db\<lparr>transactions := [\<lparr>tx_id = 2, tx_company_id = 1, tx_amount = 50\<rparr>],
                        transaction_entries := [line 3 2 1 1 50, line 4 2 1 2 (- 50)]\<rparr>,
          pending = [TgDelete (line 1 1 1 1 100), TgDelete (line 2 1 1 2 (- 100))]\<rparr>
   \<and> outcome (run_tx ex_db tx_delete_header) = Inl (RaiseException msg_too_few_lines)
   \<and> committed (run_tx ex_db tx_delete_header) = ex_db
   \<and> outcome (run_tx ex_db tx_delete_lines) = Inl (RaiseException msg_too_few_lines)
   \<and> committed (run_tx ex_db tx_delete_lines) = ex_db"
  by (simp add: tx_delete_header_def tx_delete_lines_def ex_defs run_defs)

text \<open>
  C8, as stated, fails: the failure for header 3 with one line of 50 is the same
  value as the failure for header 4 with one line of 70, and the failure for
  header 3 with a sum of 10 is the same value as the failure for header 4 with a
  sum of 20. So the failure names neither the header nor the sum.
\<close>

theorem failure_names_header_and_sum_counterexample:
  "outcome (run_tx ex_db tx_one_line) = Inl (RaiseException msg_too_few_lines)
   \<and> outcome (run_tx ex_db tx_one_line_other) = Inl (RaiseException msg_too_few_lines)
   \<and> dirty_headers (queued ex_db tx_one_line) = [3]
   \<and> dirty_headers (queued ex_db tx_one_line_other) = [4]
   \<and> outcome (run_tx ex_db tx_unbalanced) = Inl (RaiseException msg_unbalanced)
   \<and> outcome (run_tx ex_db tx_unbalanced_other) = Inl (RaiseException msg_unbalanced)
   \<and> v_sum [line 8 3 1 1 100, line 9 3 1 2 (- 90)] 3 = 10
   \<and> v_sum [line 8 4 1 1 100, line 9 4 1 2 (- 80)] 4 = 20"
  by (simp add: tx_one_line_def tx_one_line_other_def tx_unbalanced_def tx_unbalanced_other_def
      ex_defs run_defs queued_def dirty_headers_def)

text \<open>
  C8, amended. A commit that the trigger rejects fails with a plain exception
  whose text is one of two fixed messages: the too-few-lines message when the
  header of a queued firing ends with fewer than 2 lines, the unbalanced message
  when it ends with at least 2 lines and a non-zero sum. The two texts differ, so
  the caller can tell the two failures apart; the text carries no header
  identifier and no sum.
\<close>

theorem failure_is_fixed_message:
  assumes "exec_stmts cs (begin_tx db) = Inr s"
    and "outcome (run_tx db cs) = Inl e"
  shows "(\<exists>c\<in>set (pending s).
            (e = RaiseException msg_too_few_lines
               \<and> v_count (transaction_entries (cur s)) (v_tx_id c) < 2)
          \<or> (e = RaiseException msg_unbalanced
               \<and> 2 \<le> v_count (transaction_entries (cur s)) (v_tx_id c)
               \<and> v_sum (transaction_entries (cur s)) (v_tx_id c) \<noteq> 0))
       \<and> msg_too_few_lines \<noteq> msg_unbalanced"
proof -
  from run_tx_error_origin[OF assms] obtain c where
    c: "c \<in> set (pending s)"
       "validate_transaction_entries (transaction_entries (cur s)) c = Inl e" by blast
  from validate_error_cases[OF c(2)] c(1) messages_differ show ?thesis by blast
qed

theorem failure_is_fixed_message_witness:
  "exec_stmts tx_unbalanced (begin_tx ex_db) =
     Inr \<lparr>cur = ex_db\<lparr>transactions := ex_headers @ [\<lparr>tx_id = 3, tx_company_id = 1, tx_amount = 100\<rparr>],
                        transaction_entries := ex_lines @ [line 8 3 1 1 100, line 9 3 1 2 (- 90)]\<rparr>,
          pending = [TgInsert (line 8 3 1 1 100), TgInsert (line 9 3 1 2 (- 90))]\<rparr>
   \<and> outcome (run_tx ex_db tx_unbalanced) = Inl (RaiseException msg_unbalanced)
   \<and> msg_too_few_lines \<noteq> msg_unbalanced"
proof -
  let ?u = "\<lparr>cur = ex_db\<lparr>transactions := ex_headers @ [\<lparr>tx_id = 3, tx_company_id = 1, tx_amount = 100\<rparr>],
                        transaction_entries := ex_lines @ [line 8 3 1 1 100, line 9 3 1 2 (- 90)]\<rparr>,
          pending = [TgInsert (line 8 3 1 1 100), TgInsert (line 9 3 1 2 (- 90))]\<rparr>"
  have ex: "exec_stmts tx_unbalanced (begin_tx ex_db) = Inr ?u"
    by (simp add: tx_unbalanced_def ex_defs begin_tx_def entry_fk_ok_def)
  have out: "outcome (run_tx ex_db tx_unbalanced) = Inl (RaiseException msg_unbalanced)"
    by (simp add: tx_unbalanced_def ex_defs run_defs)
  from failure_is_fixed_message[OF ex out] ex out show ?thesis by simp
qed

text \<open>
  C9, as stated, fails: \<open>ex_db\<close> is tenant-consistent. A transaction that adds two
  lines naming company 2 to header 1 of company 1 commits, and so does an UPDATE
  that rewrites \<open>company_id\<close> of the lines of header 1; both leave a committed
  state that is not tenant-consistent. The policy lets user 6, a member of
  company 2 only, pass for such a line.
\<close>

theorem entry_company_counterexample:
  "tenant_consistent ex_db
   \<and> outcome (run_tx ex_db tx_foreign_company) = Inr ()
   \<and> \<not> tenant_consistent (committed (run_tx ex_db tx_foreign_company))
   \<and> company_members_manage_transaction_entries ex_db (Some 6) (line 8 1 2 1 10)
   \<and> outcome (run_tx ex_db tx_change_company) = Inr ()
   \<and> \<not> tenant_consistent (committed (run_tx ex_db tx_change_company))"
  by (simp add: tx_foreign_company_def tx_change_company_def ex_defs run_defs
      tenant_consistent_def company_members_manage_transaction_entries_def is_company_member_def)

text \<open>
  C9, amended. The table takes \<open>company_id\<close> as the client gives it. What the
  page's create path writes is consistent: \<open>onSubmit\<close> gives the header it
  creates and every line of it the id of the current company, so from a state
  that is tenant-consistent and satisfies its foreign keys, the state after
  \<open>onSubmit\<close> is tenant-consistent again, whether its two requests succeed or
  fail.
\<close>

theorem onSubmit_create_keeps_tenant:
  assumes "tenant_consistent db" and "fk_consistent db"
  shows "tenant_consistent (onSubmit_create db new_id currentCompany ids lines)
       \<and> (\<forall>r\<in>set (onSubmit_entry_rows new_id currentCompany ids (signedLines lines)).
            transaction_id r = new_id \<and> company_id r = currentCompany)"
proof -
  let ?ls = "signedLines lines"
  let ?t = "\<lparr>tx_id = new_id, tx_company_id = currentCompany, tx_amount = totalDebits ?ls\<rparr>"
  let ?rows = "onSubmit_entry_rows new_id currentCompany ids ?ls"
  let ?r1 = "run_tx db [InsertTransaction ?t]"
  have rows: "\<forall>r\<in>set ?rows. transaction_id r = new_id \<and> company_id r = currentCompany"
    using onSubmit_entry_rows_fields by blast
  have "tenant_consistent (onSubmit_create db new_id currentCompany ids lines)"
  proof (cases "sum_list (map sl_amount ?ls) \<noteq> 0")
    case True
    then show ?thesis using assms(1) by (simp add: onSubmit_create_def Let_def)
  next
    case balanced: False
    show ?thesis
    proof (cases "outcome ?r1")
      case (Inl e)
      then have "outcome ?r1 \<noteq> Inr ()" by simp
      from run_tx_rollback[OF this] Inl balanced assms(1) show ?thesis
        by (simp add: onSubmit_create_def Let_def)
    next
      case (Inr u)
      have fresh: "new_id \<notin> set (map tx_id (transactions db))"
        using Inr by (auto simp: run_tx_def begin_tx_def split: if_splits)
      then have c1: "committed ?r1 = db\<lparr>transactions := transactions db @ [?t]\<rparr>"
        by (simp add: run_tx_def begin_tx_def)
      let ?db1 = "db\<lparr>transactions := transactions db @ [?t]\<rparr>"
      have cons1: "tenant_consistent ?db1"
        using insert_header_consistent[OF assms, of ?t] fresh by simp
      let ?r2 = "run_tx ?db1 [InsertEntries ?rows]"
      have "tenant_consistent (committed ?r2)"
      proof (cases "outcome ?r2 = Inr ()")
        case False
        from run_tx_rollback[OF this] cons1 show ?thesis by simp
      next
        case True
        from run_tx_success[OF this] obtain s where
          s: "exec_stmts [InsertEntries ?rows] (begin_tx ?db1) = Inr s"
             "committed ?r2 = cur s" by blast
        from s(1) have "insert_rows ?rows (begin_tx ?db1) = Inr s"
          by (simp split: sum.splits)
        from insert_rows_result[OF this]
        have f: "transaction_entries (cur s) = transaction_entries ?db1 @ ?rows"
                "transactions (cur s) = transactions ?db1"
          by (simp_all add: begin_tx_def)
        have match: "\<forall>r\<in>set ?rows. \<forall>t\<in>set (transactions ?db1).
                 tx_id t = transaction_id r \<longrightarrow> tx_company_id t = company_id r"
          using rows fresh by auto
        from append_rows_consistent[OF cons1 match f(2) f(1)] s(2) show ?thesis by simp
      qed
      with Inr balanced c1 show ?thesis by (simp add: onSubmit_create_def Let_def)
    qed
  qed
  with rows show ?thesis by blast
qed

text \<open>
  On \<open>ex_db\<close>, with company 1 current: a debit of 10 on account 1 and a credit of
  10 on account 2 become header 3 of company 1 and two lines of company 1.
\<close>

theorem onSubmit_create_keeps_tenant_witness:
  "tenant_consistent ex_db \<and> fk_consistent ex_db
   \<and> tenant_consistent (onSubmit_create ex_db 3 1 [8, 9] ex_form_lines)
   \<and> transaction_entries (onSubmit_create ex_db 3 1 [8, 9] ex_form_lines) =
       ex_lines @ [line 8 3 1 1 10, line 9 3 1 2 (- 10)]
   \<and> transactions (onSubmit_create ex_db 3 1 [8, 9] ex_form_lines) =
       ex_headers @ [\<lparr>tx_id = 3, tx_company_id = 1, tx_amount = 10\<rparr>]"
proof -
  have t: "tenant_consistent ex_db" by (simp add: ex_defs tenant_consistent_def)
  have f: "fk_consistent ex_db" by (simp add: ex_defs fk_consistent_def entry_fk_ok_def)
  have e: "transaction_entries (onSubmit_create ex_db 3 1 [8, 9] ex_form_lines) =
             ex_lines @ [line 8 3 1 1 10, line 9 3 1 2 (- 10)]
           \<and> transactions (onSubmit_create ex_db 3 1 [8, 9] ex_form_lines) =
             ex_headers @ [\<lparr>tx_id = 3, tx_company_id = 1, tx_amount = 10\<rparr>]"
    by (simp add: onSubmit_create_def ex_form_lines_def signedLines_def totalDebits_def
        onSubmit_entry_rows_def ex_defs run_defs)
  from onSubmit_create_keeps_tenant[OF t f, of 3 1 "[8, 9]" ex_form_lines] t f e
  show ?thesis by simp
qed

text \<open>
  C10. When every header with a queued firing ends with at least two lines, all
  of amount zero, the commit goes through. Nothing restricts the scale of an
  amount either: two lines of 0.001 and -0.001 are stored and committed.
\<close>

theorem zero_amount_lines_commit:
  assumes "exec_stmts cs (begin_tx db) = Inr s"
    and "\<forall>c\<in>set (pending s).
           2 \<le> v_count (transaction_entries (cur s)) (v_tx_id c) \<and>
           (\<forall>r\<in>set (lines_of (transaction_entries (cur s)) (v_tx_id c)). amount r = 0)"
  shows "outcome (run_tx db cs) = Inr () \<and> committed (run_tx db cs) = cur s
         \<and> outcome (run_tx ex_db tx_fine_scale) = Inr ()
         \<and> transaction_entries (committed (run_tx ex_db tx_fine_scale)) =
             ex_lines @ [line 8 3 1 1 (1 / 1000), line 9 3 1 2 (- (1 / 1000))]"
proof -
  have "\<forall>c\<in>set (pending s). validate_transaction_entries (transaction_entries (cur s)) c = Inr ()"
    using assms(2) by (simp add: validate_ok_iff v_sum_def sum_list_all_zero)
  from run_tx_all_ok[OF assms(1) this]
  have gen: "outcome (run_tx db cs) = Inr () \<and> committed (run_tx db cs) = cur s" by simp
  have fine: "outcome (run_tx ex_db tx_fine_scale) = Inr ()
         \<and> transaction_entries (committed (run_tx ex_db tx_fine_scale)) =
             ex_lines @ [line 8 3 1 1 (1 / 1000), line 9 3 1 2 (- (1 / 1000))]"
    by (simp add: tx_fine_scale_def ex_defs run_tx_def begin_tx_def entry_fk_ok_def
        validate_transaction_entries_def v_count_def v_sum_def lines_of_def)
  from gen fine show ?thesis by simp
qed

text \<open>On \<open>ex_db\<close>, a new header 3 with two lines of amount 0 commits.\<close>

theorem zero_amount_lines_commit_witness:
  "exec_stmts tx_zero_lines (begin_tx ex_db) =
     Inr \<lparr>cur = ex_db\<lparr>transactions := ex_headers @ [\<lparr>tx_id = 3, tx_company_id = 1, tx_amount = 0\<rparr>],
                        transaction_entries := ex_lines @ [line 8 3 1 1 0, line 9 3 1 2 0]\<rparr>,
          pending = [TgInsert (line 8 3 1 1 0), TgInsert (line 9 3 1 2 0)]\<rparr>
   \<and> lines_of (ex_lines @ [line 8 3 1 1 0, line 9 3 1 2 0]) 3 = [line 8 3 1 1 0, line 9 3 1 2 0]
   \<and> outcome (run_tx ex_db tx_zero_lines) = Inr ()
   \<and> transaction_entries (committed (run_tx ex_db tx_zero_lines)) =
       ex_lines @ [line 8 3 1 1 0, line 9 3 1 2 0]"
proof -
  let ?s = "\<lparr>cur = ex_db\<lparr>transactions := ex_headers @ [\<lparr>tx_id = 3, tx_company_id = 1, tx_amount = 0\<rparr>],
                        transaction_entries := ex_lines @ [line 8 3 1 1 0, line 9 3 1 2 0]\<rparr>,
          pending = [TgInsert (line 8 3 1 1 0), TgInsert (line 9 3 1 2 0)]\<rparr>"
  have ex: "exec_stmts tx_zero_lines (begin_tx ex_db) = Inr ?s"
    by (simp add: tx_zero_lines_def ex_defs begin_tx_def entry_fk_ok_def)
  have ls: "lines_of (ex_lines @ [line 8 3 1 1 0, line 9 3 1 2 0]) 3 = [line 8 3 1 1 0, line 9 3 1 2 0]"
    by (simp add: ex_defs lines_of_def)
  have hyp: "\<forall>c\<in>set (pending ?s).
           2 \<le> v_count (transaction_entries (cur ?s)) (v_tx_id c) \<and>
           (\<forall>r\<in>set (lines_of (transaction_entries (cur ?s)) (v_tx_id c)). amount r = 0)"
    by (simp add: ex_defs v_count_def lines_of_def)
  from zero_amount_lines_commit[OF ex hyp] ex ls show ?thesis by simp
qed

end
